theory Spec2Isabelle
  imports Main
begin

section \<open>JavaScript values\<close>

text \<open>
  The configuration handed to \<open>newFSM\<close> is an arbitrary JavaScript value. The values
  represented here are \<open>undefined\<close>, \<open>null\<close>, booleans, numbers that are integers,
  strings, functions of the caller and plain objects, whose prototype is
  \<open>Object.prototype\<close>. \<open>Num n\<close> is a number of JavaScript when \<open>n\<close> is a safe integer
  (at most \<open>2^53 - 1\<close> in absolute value); nothing is computed from the digits of
  another one. A plain object is the list of its own enumerable properties in the
  order in which the engine enumerates them; the first entry of a name is the
  property. Objects are trees: no object occurs in two places. \<open>Builtin k\<close> is the
  member \<open>k\<close> of \<open>Object.prototype\<close>, which every property read \<open>o[k]\<close> reaches when
  \<open>o\<close> has no own property \<open>k\<close>. Arrays, accessor properties, fractional numbers and
  \<open>NaN\<close>, and properties attached to function objects are not represented.

  A function of the caller is a callback of the machine. It has a number, which tells
  it from other functions, and a body. Of the body, the steps that change the machine
  or end the function early are represented, in the order in which a run of the
  function takes them:
  \<^item> \<open>Assign k v\<close> is \<open>this[k] = v\<close>. \<open>handleEvent\<close> calls \<open>onBefore\<close> and \<open>onAfter\<close> as
    methods of the event node of the private configuration (lines 177 and 185), so
    that \<open>this\<close> is that node; it calls \<open>onExit\<close> and \<open>onEnter\<close> through local variables
    (lines 178 and 184).
  \<^item> \<open>Send name\<close> is the call \<open>handleEvent(name)\<close> of the machine that calls the
    function, which the function reaches through the variable that holds the machine.
  \<^item> \<open>Throw\<close> is an exception that leaves the function.
  Calls of \<open>isValid\<close>, \<open>status\<close>, \<open>currentState\<close> and \<open>canHandleEvent\<close> assign no
  variable and are no steps; one that throws is a \<open>Throw\<close>. A function with the body
  \<open>[]\<close> returns and leaves the machine as it is. The body is the same in every run:
  a function whose steps depend on the state of the machine or on its earlier runs is
  not represented, and neither is one that deletes or redefines a property of its
  event node.
\<close>

datatype jsval =
    Undefined
  | Null
  | Bool bool
  | Num int
  | Str string
  | Func nat "effect list"
  | Builtin string
  | Obj "(string \<times> jsval) list"
and effect =
    Assign string jsval
  | Send jsval
  | Throw

text \<open>
  \<open>TypeError\<close> is the exception of a property read on \<open>undefined\<close> or \<open>null\<close>,
  \<open>RangeError\<close> the one of a call for which the stack of the engine has no room, and
  \<open>Thrown\<close> the one that a callback throws. \<open>Unmodelled\<close> marks a step whose outcome
  depends on the engine or on the lodash release and is therefore not computed here.
  The evaluations below meet no such step: their results are values \<open>Inr\<close> and the
  three exceptions.
\<close>

datatype error = TypeError | RangeError | Thrown | Unmodelled

definition bind :: "error + 'a \<Rightarrow> ('a \<Rightarrow> error + 'b) \<Rightarrow> error + 'b" where
  "bind m f = (case m of Inl e \<Rightarrow> Inl e | Inr v \<Rightarrow> f v)"

fun truthy :: "jsval \<Rightarrow> bool" where
  "truthy Undefined = False"
| "truthy Null = False"
| "truthy (Bool b) = b"
| "truthy (Num n) = (n \<noteq> 0)"
| "truthy (Str s) = (s \<noteq> [])"
| "truthy (Func i body) = True"
| "truthy (Builtin k) = True"
| "truthy (Obj ps) = True"

fun nullish :: "jsval \<Rightarrow> bool" where
  "nullish Undefined = True"
| "nullish Null = True"
| "nullish v = False"

subsection \<open>Property keys\<close>

fun decimal :: "nat \<Rightarrow> string" where
  "decimal n =
     (if n < 10 then [''0123456789'' ! n]
      else decimal (n div 10) @ [''0123456789'' ! (n mod 10)])"

declare decimal.simps [simp del]

definition MAX_SAFE_INTEGER :: int where
  "MAX_SAFE_INTEGER = 9007199254740991"

text \<open>
  \<open>o[v]\<close> converts \<open>v\<close> to a property key with \<open>ToString\<close>. A safe integer is
  written with all its digits; larger numbers are rounded and, from \<open>10^21\<close>, written
  with an exponent, which is not computed. The text of a function and the result of an
  object's \<open>toString\<close> are not computed either.
\<close>

fun to_key :: "jsval \<Rightarrow> error + string" where
  "to_key Undefined = Inr ''undefined''"
| "to_key Null = Inr ''null''"
| "to_key (Bool b) = Inr (if b then ''true'' else ''false'')"
| "to_key (Num n) =
     (if n < - MAX_SAFE_INTEGER \<or> MAX_SAFE_INTEGER < n then Inl Unmodelled
      else Inr (if n < 0 then CHR ''-'' # decimal (nat (- n)) else decimal (nat n)))"
| "to_key (Str s) = Inr s"
| "to_key (Func i body) = Inl Unmodelled"
| "to_key (Builtin k) = Inl Unmodelled"
| "to_key (Obj ps) = Inl Unmodelled"

subsection \<open>Property reads\<close>

text \<open>
  The names of the members of \<open>Object.prototype\<close>: those of ECMAScript 5.1 and the
  legacy accessors that Node.js and the browsers add.
\<close>

definition object_prototype_names :: "string list" where
  "object_prototype_names =
     [''constructor'', ''toString'', ''toLocaleString'', ''valueOf'', ''hasOwnProperty'',
      ''isPrototypeOf'', ''propertyIsEnumerable'', ''__proto__'', ''__defineGetter__'',
      ''__defineSetter__'', ''__lookupGetter__'', ''__lookupSetter__'']"

text \<open>
  The property names that \<open>FSM.js\<close> reads by name. No prototype of the language
  defines one of them, so that reading one from a string, a number, a boolean or a
  function gives \<open>undefined\<close>.
\<close>

definition config_vocabulary :: "string list" where
  "config_vocabulary =
     [''states'', ''startState'', ''events'', ''actions'', ''onEnter'', ''onExit'',
      ''onBefore'', ''onAfter'', ''toState'']"

text \<open>
  A member that a value other than a plain object inherits: the prototypes of strings,
  numbers, booleans and functions differ between engines, so that a name outside
  \<open>config_vocabulary\<close> and \<open>object_prototype_names\<close> is not decided.
\<close>

definition host_member :: "string \<Rightarrow> error + jsval" where
  "host_member k =
     (if k \<in> set config_vocabulary then Inr Undefined
      else if k \<in> set object_prototype_names then Inr (Builtin k)
      else Inl Unmodelled)"

definition index_of :: "string \<Rightarrow> string \<Rightarrow> nat option" where
  "index_of s k = find (\<lambda>i. decimal i = k) [0..<length s]"

fun get :: "jsval \<Rightarrow> string \<Rightarrow> error + jsval" where
  "get Undefined k = Inl TypeError"
| "get Null k = Inl TypeError"
| "get (Obj ps) k =
     (case map_of ps k of
        Some v \<Rightarrow> Inr v
      | None \<Rightarrow> Inr (if k \<in> set object_prototype_names then Builtin k else Undefined))"
| "get (Str s) k =
     (if k = ''length'' then Inr (Num (int (length s)))
      else case index_of s k of
             Some i \<Rightarrow> Inr (Str [s ! i])
           | None \<Rightarrow> host_member k)"
| "get (Bool b) k = host_member k"
| "get (Num n) k = host_member k"
| "get (Func i body) k = host_member k"
| "get (Builtin b) k = host_member k"

text \<open>\<open>Object.prototype.hasOwnProperty.call(v, k)\<close>.\<close>

fun own :: "jsval \<Rightarrow> string \<Rightarrow> error + bool" where
  "own Undefined k = Inl TypeError"
| "own Null k = Inl TypeError"
| "own (Obj ps) k = Inr (k \<in> set (map fst ps))"
| "own (Str s) k = Inr (k = ''length'' \<or> index_of s k \<noteq> None)"
| "own (Bool b) k = Inr False"
| "own (Num n) k = Inr False"
| "own (Func i body) k = (if k \<in> set config_vocabulary then Inr False else Inl Unmodelled)"
| "own (Builtin b) k = (if k \<in> set config_vocabulary then Inr False else Inl Unmodelled)"

text \<open>\<open>k in Object(v)\<close>: an own or an inherited property.\<close>

definition in_object :: "jsval \<Rightarrow> string \<Rightarrow> error + bool" where
  "in_object v k =
     bind (own v k) (\<lambda>b.
       if b \<or> k \<in> set object_prototype_names then Inr True
       else case v of
              Obj ps \<Rightarrow> Inr False
            | _ \<Rightarrow> (if k \<in> set config_vocabulary then Inr False else Inl Unmodelled))"


section \<open>The lodash functions that \<open>FSM.js\<close> calls\<close>

text \<open>
  lodash is a dependency of the module and no part of its source. The functions are
  modelled after the documentation and the source of lodash 4, the release current
  when the module was written, on the values represented here.
\<close>

fun isString :: "jsval \<Rightarrow> bool" where
  "isString (Str s) = True"
| "isString v = False"

fun isFunction :: "jsval \<Rightarrow> bool" where
  "isFunction (Func i body) = True"
| "isFunction (Builtin k) = (k \<noteq> ''__proto__'')"
| "isFunction v = False"

fun isLength :: "jsval \<Rightarrow> bool" where
  "isLength (Num n) = (0 \<le> n \<and> n \<le> MAX_SAFE_INTEGER)"
| "isLength v = False"

text \<open>
  \<open>isArrayLike(v)\<close> is \<open>v != null && isLength(v.length) && !isFunction(v)\<close>: a string,
  and a plain object with an own property \<open>length\<close> that is a length. A number and a
  boolean have no \<open>length\<close>; a function has one and is excluded by the last test.
\<close>

fun array_length :: "jsval \<Rightarrow> nat option" where
  "array_length (Str s) = Some (length s)"
| "array_length (Obj ps) =
     (case map_of ps ''length'' of
        Some (Num n) \<Rightarrow> (if isLength (Num n) then Some (nat n) else None)
      | _ \<Rightarrow> None)"
| "array_length v = None"

definition isArrayLike :: "jsval \<Rightarrow> bool" where
  "isArrayLike v = (array_length v \<noteq> None)"

text \<open>
  \<open>_.keys(v)\<close>: the own enumerable property names; the indices of a string; none for
  \<open>undefined\<close>, \<open>null\<close>, a number, a boolean and a function.
\<close>

fun keys :: "jsval \<Rightarrow> string list" where
  "keys (Obj ps) = map fst ps"
| "keys (Str s) = map decimal [0..<length s]"
| "keys v = []"

text \<open>
  The values that \<open>_.each(v, f)\<close> passes to \<open>f\<close>, in order. An array-like collection
  is walked by index, \<open>v[0]\<close> to \<open>v[v.length - 1]\<close>, whatever properties it has; any
  other object by its own enumerable properties. \<open>f\<close> is also given the name or the
  index, which \<open>FSM.js\<close> uses in its log messages only; logging is not modelled.
\<close>

fun each_values :: "jsval \<Rightarrow> jsval list" where
  "each_values (Str s) = map (\<lambda>c. Str [c]) s"
| "each_values (Obj ps) =
     (case array_length (Obj ps) of
        Some n \<Rightarrow>
          map (\<lambda>i. case map_of ps (decimal i) of Some v \<Rightarrow> v | None \<Rightarrow> Undefined) [0..<n]
      | None \<Rightarrow> map snd ps)"
| "each_values v = []"

fun iterate :: "('s \<Rightarrow> jsval \<Rightarrow> error + 's) \<Rightarrow> jsval list \<Rightarrow> 's \<Rightarrow> error + 's" where
  "iterate f [] s = Inr s"
| "iterate f (x # xs) s = bind (f s x) (iterate f xs)"

definition each :: "('s \<Rightarrow> jsval \<Rightarrow> error + 's) \<Rightarrow> jsval \<Rightarrow> 's \<Rightarrow> error + 's" where
  "each f collection s = iterate f (each_values collection) s"

text \<open>
  \<open>_.has(object, path)\<close> takes a property path. A string is one key when it has no
  \<open>.\<close> and no \<open>[\<close>, or when it is a property of the object (own or inherited);
  otherwise it is split into the keys of a path, which is followed through own
  properties. Paths with brackets or with an empty key are parsed differently by
  different releases and are not computed.
\<close>

fun split_dots :: "string \<Rightarrow> string list" where
  "split_dots [] = [[]]"
| "split_dots (c # cs) =
     (if c = CHR ''.'' then [] # split_dots cs
      else case split_dots cs of
             w # ws \<Rightarrow> (c # w) # ws
           | [] \<Rightarrow> [[c]])"

definition stringToPath :: "string \<Rightarrow> error + string list" where
  "stringToPath s =
     (if CHR ''['' \<in> set s \<or> CHR '']'' \<in> set s \<or> [] \<in> set (split_dots s)
      then Inl Unmodelled
      else Inr (split_dots s))"

fun castPath :: "jsval \<Rightarrow> jsval \<Rightarrow> error + string list" where
  "castPath (Str s) object =
     (if CHR ''.'' \<notin> set s \<and> CHR ''['' \<notin> set s then Inr [s]
      else bind (in_object object s) (\<lambda>b. if b then Inr [s] else stringToPath s))"
| "castPath (Func i body) object = Inl Unmodelled"
| "castPath (Builtin k) object = Inl Unmodelled"
| "castPath (Obj ps) object = Inl Unmodelled"
| "castPath v object = bind (to_key v) (\<lambda>k. Inr [k])"

fun hasPath :: "jsval \<Rightarrow> string list \<Rightarrow> error + bool" where
  "hasPath object [] = Inr False"
| "hasPath object (key # rest) =
     (if nullish object then Inr False
      else bind (own object key) (\<lambda>result.
             if \<not> result then Inr False
             else bind (get object key) (\<lambda>next.
                    if rest = [] then Inr True else hasPath next rest)))"

definition has :: "jsval \<Rightarrow> jsval \<Rightarrow> error + bool" where
  "has object path =
     (if nullish object then Inr False
      else bind (castPath path object) (hasPath object))"

text \<open>
  \<open>_.cloneDeep(v)\<close> copies objects recursively and keeps the functions inside them by
  reference; for a function itself it returns an empty object. An object is its
  properties here, so that a copy is the value; the copy is the machine's own, and an
  assignment to it changes the variable \<open>config\<close> of the machine alone.
\<close>

fun cloneDeep :: "jsval \<Rightarrow> jsval" where
  "cloneDeep (Func i body) = Obj []"
| "cloneDeep (Builtin k) = Obj []"
| "cloneDeep v = v"


section \<open>The module \<open>src/lib/FSM.js\<close>\<close>

datatype status =
    OK
  | ERROR_ILLEGAL_EVENT
  | ERROR_INVALID_START_STATE
  | ERROR_NO_VALID_STATES
  | ERROR_INVALID_EVENT_NODE
  | ERROR_INVALID_TARGET_STATE
  | ERROR_INVALID_TRANSISTION_FUNCTION
  | ERROR_INVALID_ACTION_FUNCTION
  | ERROR_IMPROPERLY_INITIALIZED

text \<open>
  The variables of the closure that \<open>newFSM\<close> creates, which its five functions share:
  the private copy of the configuration, \<open>isInternalValid\<close>, \<open>current\<close> and
  \<open>initStatus\<close>. \<open>current\<close> is a value: it starts as \<open>null\<close>.
\<close>

record machine =
  config :: jsval
  isInternalValid :: bool
  current :: jsval
  initStatus :: status

text \<open>While \<open>init\<close> runs, its six local flags stand beside them.\<close>

record init_vars = machine +
  hasInvalidStartState :: bool
  hasInvalidStateNodes :: bool
  hasInvalidEventNode :: bool
  hasInvalidToState :: bool
  hasInvalidTransitionFunction :: bool
  hasInvalidActionFunction :: bool

subsection \<open>Validation: \<open>init\<close>, lines 50 to 148\<close>

text \<open>The function given to \<open>_.each(events, ...)\<close>, lines 109 to 137.\<close>

definition inspect_event :: "jsval \<Rightarrow> init_vars \<Rightarrow> jsval \<Rightarrow> error + init_vars" where
  "inspect_event states v event =
     (if \<not> truthy event then
        Inr (v\<lparr>initStatus := ERROR_INVALID_EVENT_NODE, hasInvalidEventNode := True\<rparr>)
      else
        bind (get event ''onBefore'') (\<lambda>onBefore.
        bind (get event ''onAfter'') (\<lambda>onAfter.
        let v1 = (if truthy onBefore \<and> \<not> isFunction onBefore
                  then v\<lparr>hasInvalidTransitionFunction := True\<rparr> else v);
            v2 = (if truthy onAfter \<and> \<not> isFunction onAfter
                  then v1\<lparr>hasInvalidTransitionFunction := True\<rparr> else v1);
            v3 = (if hasInvalidTransitionFunction v2
                  then v2\<lparr>initStatus := ERROR_INVALID_TRANSISTION_FUNCTION\<rparr> else v2)
        in
        bind (get event ''toState'') (\<lambda>toState.
        let isToStateString = isString toState in
        bind (if isToStateString then bind (to_key toState) (get states) else Inr Undefined)
          (\<lambda>target.
             if \<not> isToStateString \<or> \<not> truthy target then
               Inr (v3\<lparr>hasInvalidToState := True, initStatus := ERROR_INVALID_TARGET_STATE\<rparr>)
             else Inr v3)))))"

text \<open>The inspection of the action functions, lines 97 to 105, for a truthy \<open>actions\<close>.\<close>

definition inspect_actions :: "init_vars \<Rightarrow> jsval \<Rightarrow> error + init_vars" where
  "inspect_actions v actions =
     bind (get actions ''onEnter'') (\<lambda>onEnter.
     bind (get actions ''onExit'') (\<lambda>onExit.
     let v1 = (if truthy onEnter \<and> \<not> isFunction onEnter
               then v\<lparr>hasInvalidActionFunction := True\<rparr> else v);
         v2 = (if truthy onExit \<and> \<not> isFunction onExit
               then v1\<lparr>hasInvalidActionFunction := True\<rparr> else v1)
     in Inr (if hasInvalidActionFunction v2
             then v2\<lparr>initStatus := ERROR_INVALID_ACTION_FUNCTION\<rparr> else v2)))"

text \<open>The function given to \<open>_.each(states, ...)\<close>, lines 85 to 139.\<close>

definition inspect_state :: "jsval \<Rightarrow> init_vars \<Rightarrow> jsval \<Rightarrow> error + init_vars" where
  "inspect_state states v state =
     bind (get state ''events'') (\<lambda>events.
     let eventNames = keys events in
     if length eventNames < 1 then Inr v
     else
       bind (get state ''actions'') (\<lambda>actions.
       bind (if truthy actions then inspect_actions v actions else Inr v) (\<lambda>v'.
       each (inspect_event states) events v')))"

text \<open>Line 145: \<open>isInternalValid\<close> is set from the flags.\<close>

definition conclude :: "init_vars \<Rightarrow> init_vars" where
  "conclude v =
     v\<lparr>isInternalValid :=
         \<not> hasInvalidStartState v \<and> \<not> hasInvalidStateNodes v
         \<and> \<not> hasInvalidEventNode v \<and> \<not> hasInvalidToState v
         \<and> \<not> hasInvalidActionFunction v \<and> \<not> hasInvalidTransitionFunction v\<rparr>"

definition initial_vars :: "jsval \<Rightarrow> init_vars" where
  "initial_vars c =
     \<lparr>config = c, isInternalValid = False, current = Null, initStatus = OK,
      hasInvalidStartState = False, hasInvalidStateNodes = False,
      hasInvalidEventNode = False, hasInvalidToState = False,
      hasInvalidTransitionFunction = False, hasInvalidActionFunction = False\<rparr>"

definition init :: "init_vars \<Rightarrow> error + init_vars" where
  "init v =
     bind (get (config v) ''states'') (\<lambda>states.
     if truthy states then
       let stateNames = keys states in
       bind (get (config v) ''startState'') (\<lambda>s.
       let startState = (if isString s then s else Null) in
       bind (bind (to_key startState) (get states)) (\<lambda>startNode.
       let v1 = (if truthy startNode then v\<lparr>current := startState\<rparr>
                 else v\<lparr>hasInvalidStartState := True,
                        initStatus := ERROR_INVALID_START_STATE\<rparr>);
           v2 = (if length stateNames < 1
                 then v1\<lparr>initStatus := ERROR_NO_VALID_STATES, hasInvalidStateNodes := True\<rparr>
                 else v1)
       in bind (each (inspect_state states) states v2) (\<lambda>v3. Inr (conclude v3))))
     else
       Inr (conclude (v\<lparr>initStatus := ERROR_NO_VALID_STATES, hasInvalidStateNodes := True\<rparr>)))"

text \<open>
  Lines 42 to 48 and 226 to 233: the factory. An exception in \<open>init\<close> leaves
  \<open>newFSM\<close> and no machine is returned.
\<close>

definition newFSM :: "jsval \<Rightarrow> error + machine" where
  "newFSM userConfig =
     bind (init (initial_vars (cloneDeep (if truthy userConfig then userConfig else Obj []))))
       (\<lambda>v. Inr (machine.truncate v))"

subsection \<open>The public functions, lines 157 to 222\<close>

definition canHandleEvent :: "machine \<Rightarrow> jsval \<Rightarrow> error + bool" where
  "canHandleEvent m name =
     (if \<not> isInternalValid m then Inr False
      else
        bind (get (config m) ''states'') (\<lambda>states.
        bind (bind (to_key (current m)) (get states)) (\<lambda>currentNode.
        bind (get currentNode ''events'') (\<lambda>events.
        has events name))))"

definition status :: "machine \<Rightarrow> status" where
  "status m = initStatus m"

definition currentState :: "machine \<Rightarrow> jsval" where
  "currentState m = current m"

definition isValid :: "machine \<Rightarrow> bool" where
  "isValid m = (initStatus m = OK)"

subsection \<open>Calls that run callbacks\<close>

text \<open>
  A call of a function of the machine gives three things: the value it returns or the
  exception that ends it, the variables of the closure after it (an exception undoes
  nothing), and the callbacks called during it. A callback call is recorded as the
  function and the value that \<open>currentState()\<close> has when the call begins.
\<close>

type_synonym call = "jsval \<times> jsval"

type_synonym 'a reply = "(error + 'a) \<times> machine \<times> call list"

text \<open>What \<open>handleEvent\<close> does when a callback calls it.\<close>

type_synonym api = "machine \<Rightarrow> jsval \<Rightarrow> status reply"

text \<open>A step that reads and changes nothing, and what follows it.\<close>

definition attempt :: "error + 'a \<Rightarrow> machine \<Rightarrow> ('a \<Rightarrow> 'b reply) \<Rightarrow> 'b reply" where
  "attempt r m f = (case r of Inl e \<Rightarrow> (Inl e, m, []) | Inr x \<Rightarrow> f x)"

text \<open>A step that may change the machine and call callbacks, and what follows it.\<close>

definition after :: "call list \<Rightarrow> 'a reply \<Rightarrow> 'a reply" where
  "after calls r = (case r of (x, m, calls') \<Rightarrow> (x, m, calls @ calls'))"

definition andThen :: "'a reply \<Rightarrow> ('a \<Rightarrow> machine \<Rightarrow> 'b reply) \<Rightarrow> 'b reply" where
  "andThen r f =
     (case r of
        (Inl e, m, calls) \<Rightarrow> (Inl e, m, calls)
      | (Inr x, m, calls) \<Rightarrow> after calls (f x m))"

text \<open>
  The event node is an object of the private configuration, and \<open>handleEvent\<close> holds
  a reference to it. Objects are trees here, and a callback assigns to properties of
  event nodes only, so that the node is found again at its place: under \<open>states\<close>, the
  key of the state, \<open>events\<close>, the key of the event.
\<close>

type_synonym node = "string \<times> string"

definition eventNodeAt :: "machine \<Rightarrow> node \<Rightarrow> error + jsval" where
  "eventNodeAt m this =
     bind (get (config m) ''states'') (\<lambda>states.
     bind (get states (fst this)) (\<lambda>stateNode.
     bind (get stateNode ''events'') (\<lambda>events.
     get events (snd this))))"

text \<open>
  \<open>o[k] = v\<close> on a plain object: the property keeps its place, a new one comes last.
  Assigning to \<open>__proto__\<close> changes the prototype and is not computed.
\<close>

fun set_property :: "(string \<times> jsval) list \<Rightarrow> string \<Rightarrow> jsval \<Rightarrow> (string \<times> jsval) list" where
  "set_property [] k v = [(k, v)]"
| "set_property ((k', v') # ps) k v =
     (if k' = k then (k, v) # ps else (k', v') # set_property ps k v)"

text \<open>The value \<open>root\<close> after \<open>o[k] = v\<close> for the object \<open>o\<close> at a path of own properties.\<close>

fun assign :: "jsval \<Rightarrow> string list \<Rightarrow> string \<Rightarrow> jsval \<Rightarrow> error + jsval" where
  "assign (Obj ps) [] k v =
     (if k = ''__proto__'' then Inl Unmodelled else Inr (Obj (set_property ps k v)))"
| "assign (Obj ps) (p # path) k v =
     (case map_of ps p of
        None \<Rightarrow> Inl Unmodelled
      | Some child \<Rightarrow>
          bind (assign child path k v) (\<lambda>child'. Inr (Obj (set_property ps p child'))))"
| "assign root path k v = Inl Unmodelled"

text \<open>
  The run of the body of a callback. \<open>this\<close> is the event node in a method call and
  absent in a plain call, where the effect of an assignment depends on the mode of the
  function and is not computed. \<open>api\<close> is what a call of \<open>handleEvent\<close> does; what it
  returns is dropped.
\<close>

fun run :: "api \<Rightarrow> node option \<Rightarrow> effect list \<Rightarrow> machine \<Rightarrow> unit reply" where
  "run api this [] m = (Inr (), m, [])"
| "run api this (Throw # rest) m = (Inl Thrown, m, [])"
| "run api this (Assign k v # rest) m =
     (case this of
        None \<Rightarrow> (Inl Unmodelled, m, [])
      | Some node \<Rightarrow>
          (case assign (config m) [''states'', fst node, ''events'', snd node] k v of
             Inl e \<Rightarrow> (Inl e, m, [])
           | Inr c \<Rightarrow> run api this rest (m\<lparr>config := c\<rparr>)))"
| "run api this (Send name # rest) m =
     (case api m name of
        (Inl e, m', calls) \<Rightarrow> (Inl e, m', calls)
      | (Inr code, m', calls) \<Rightarrow> after calls (run api this rest m'))"

text \<open>
  \<open>_.isFunction(f) && f()\<close>, lines 177, 178, 184 and 185. A member of
  \<open>Object.prototype\<close> given as a callback is native code, which is not computed.
\<close>

definition invoke :: "api \<Rightarrow> node option \<Rightarrow> jsval \<Rightarrow> machine \<Rightarrow> unit reply" where
  "invoke api this f m =
     (if isFunction f then
        andThen (Inr (), m, [(f, current m)])
          (\<lambda>u m. case f of Func i body \<Rightarrow> run api this body m | _ \<Rightarrow> (Inl Unmodelled, m, []))
      else (Inr (), m, []))"

text \<open>
  Lines 170 to 186: the branch of \<open>handleEvent\<close> for a target state that \<open>_.has\<close>
  finds in \<open>config.states\<close>. \<open>currentNode\<close> is \<open>config.states[current]\<close> and
  \<open>eventNode\<close> the event node as they are when the branch begins; \<open>this\<close> is the place
  of the event node. After \<open>onBefore\<close> and \<open>onExit\<close> have run, line 181 reads
  \<open>eventNode.toState\<close> again, and after \<open>onEnter\<close> line 185 reads \<open>eventNode.onAfter\<close>
  again.
\<close>

definition transition ::
  "api \<Rightarrow> machine \<Rightarrow> node \<Rightarrow> jsval \<Rightarrow> jsval \<Rightarrow> jsval \<Rightarrow> jsval \<Rightarrow> status reply"
  where
  "transition api m this states currentNode eventNode toState =
     attempt (get currentNode ''actions'') m (\<lambda>ca.
     let currentActionsNode = (if truthy ca then ca else Obj []) in
     attempt (bind (to_key toState) (get states)) m (\<lambda>targetNode.
     attempt (get targetNode ''actions'') m (\<lambda>ta.
     let targetActionsNode = (if truthy ta then ta else Obj []) in
     attempt (get currentActionsNode ''onExit'') m (\<lambda>onExitCurrentState.
     attempt (get targetActionsNode ''onEnter'') m (\<lambda>onEnterTargetState.
     attempt (get eventNode ''onBefore'') m (\<lambda>onBefore.
     andThen (invoke api (Some this) onBefore m) (\<lambda>u m1.
     andThen (invoke api None onExitCurrentState m1) (\<lambda>u m2.
     attempt (bind (eventNodeAt m2 this) (\<lambda>node. get node ''toState'')) m2 (\<lambda>target.
     andThen (invoke api None onEnterTargetState (m2\<lparr>current := target\<rparr>)) (\<lambda>u m3.
     attempt (bind (eventNodeAt m3 this) (\<lambda>node. get node ''onAfter'')) m3 (\<lambda>onAfter.
     andThen (invoke api (Some this) onAfter m3) (\<lambda>u m4.
     (Inr OK, m4, [])))))))))))))"

definition handleEvent :: "api \<Rightarrow> machine \<Rightarrow> jsval \<Rightarrow> status reply" where
  "handleEvent api m name =
     (if \<not> isInternalValid m then (Inr ERROR_IMPROPERLY_INITIALIZED, m, [])
      else
        attempt (canHandleEvent m name) m (\<lambda>can.
        if can then
          attempt (get (config m) ''states'') m (\<lambda>states.
          attempt (to_key (current m)) m (\<lambda>a.
          attempt (get states a) m (\<lambda>currentNode.
          attempt (get currentNode ''events'') m (\<lambda>events.
          attempt (to_key name) m (\<lambda>e.
          attempt (get events e) m (\<lambda>eventNode.
          attempt (get eventNode ''toState'') m (\<lambda>toState.
          attempt (has states toState) m (\<lambda>known.
          if known then transition api m (a, e) states currentNode eventNode toState
          else (Inr ERROR_INVALID_TARGET_STATE, m, [])))))))))
        else (Inr ERROR_ILLEGAL_EVENT, m, [])))"

subsection \<open>The public API, lines 226 to 233\<close>

text \<open>
  A call of one of the five functions of \<open>publicApi\<close>. The four queries assign no
  variable and call no callback.
\<close>

datatype operation =
    IsValid
  | Status
  | CurrentState
  | CanHandleEvent jsval
  | HandleEvent jsval

datatype outcome = Flag bool | Code status | Value jsval

fun perform :: "api \<Rightarrow> machine \<Rightarrow> operation \<Rightarrow> outcome reply" where
  "perform api m IsValid = (Inr (Flag (isValid m)), m, [])"
| "perform api m Status = (Inr (Code (status m)), m, [])"
| "perform api m CurrentState = (Inr (Value (currentState m)), m, [])"
| "perform api m (CanHandleEvent name) =
     attempt (canHandleEvent m name) m (\<lambda>b. (Inr (Flag b), m, []))"
| "perform api m (HandleEvent name) =
     andThen (handleEvent api m name) (\<lambda>code m'. (Inr (Code code), m', []))"

text \<open>
  The call of \<open>handleEvent\<close> that a callback makes is a call of the same function. The
  stack of the engine bounds how deep such calls are nested: \<open>nested d\<close> is the call
  from a callback when the stack has room for \<open>d\<close> of them, one inside the other, and
  \<open>handleEvent (nested d)\<close> the call by the caller. A call for which there is no room
  throws.
\<close>

primrec nested :: "nat \<Rightarrow> api" where
  "nested 0 = (\<lambda>m name. (Inl RangeError, m, []))"
| "nested (Suc d) = handleEvent (nested d)"

text \<open>
  The machines of a configuration: the one that \<open>newFSM\<close> returns, and every one that
  a call of the public API by the caller leaves behind, whether the call returns or
  throws.
\<close>

inductive machine_of :: "jsval \<Rightarrow> machine \<Rightarrow> bool" where
  built: "newFSM userConfig = Inr m \<Longrightarrow> machine_of userConfig m"
| called: "machine_of userConfig m \<Longrightarrow> perform (nested d) m operation = (result, m', calls)
           \<Longrightarrow> machine_of userConfig m'"

subsection \<open>Kinds of callback\<close>



text \<open>A callback is assignment-free when it assigns to no property of its event node.\<close>

fun is_assignment :: "effect \<Rightarrow> bool" where
  "is_assignment (Assign k v) = True"
| "is_assignment e = False"

fun assignment_free :: "jsval \<Rightarrow> bool" where
  "assignment_free (Func i body) = list_all (\<lambda>e. \<not> is_assignment e) body"
| "assignment_free v = True"

text \<open>
  What a call leaves as it is: the two variables that \<open>init\<close> has set, and \<open>config\<close>
  when no callback called assigns to a property of its event node.
\<close>

definition frame :: "machine \<Rightarrow> machine \<Rightarrow> call list \<Rightarrow> bool" where
  "frame m m' calls =
     (isInternalValid m' = isInternalValid m \<and> initStatus m' = initStatus m
      \<and> (list_all (\<lambda>c. assignment_free (fst c)) calls \<longrightarrow> config m' = config m))"

definition framed :: "api \<Rightarrow> bool" where
  "framed api = (\<forall>m name r m' calls. api m name = (r, m', calls) \<longrightarrow> frame m m' calls)"

subsection \<open>Example configurations\<close>

text \<open>The light switch of the README and of the header of \<open>FSM.js\<close>.\<close>

definition lightSwitch :: jsval where
  "lightSwitch =
     Obj [(''startState'', Str ''Off''),
          (''states'', Obj [
             (''Off'', Obj [(''events'', Obj [(''turnOn'', Obj [(''toState'', Str ''On'')])])]),
             (''On'', Obj [(''events'', Obj [(''turnOff'', Obj [(''toState'', Str ''Off'')])])])])]"

text \<open>
  Two states with all four kinds of callback: \<open>go\<close> and \<open>jump\<close> lead from \<open>A\<close> to
  \<open>B\<close>, \<open>stay\<close> from \<open>A\<close> to \<open>A\<close>. The functions are numbered to tell them apart. The
  event nodes of \<open>go\<close> and \<open>stay\<close> and the \<open>onEnter\<close> of \<open>B\<close> are left open.
\<close>

definition eventGo :: "jsval \<Rightarrow> jsval" where
  "eventGo onBefore =
     Obj [(''toState'', Str ''B''), (''onBefore'', onBefore), (''onAfter'', Func 2 [])]"

definition eventStay :: "jsval \<Rightarrow> jsval" where
  "eventStay onBefore =
     Obj [(''toState'', Str ''A''), (''onBefore'', onBefore), (''onAfter'', Func 4 [])]"

definition actionsA :: jsval where
  "actionsA = Obj [(''onEnter'', Func 5 []), (''onExit'', Func 6 [])]"

definition actionsB :: "jsval \<Rightarrow> jsval" where
  "actionsB onEnter = Obj [(''onEnter'', onEnter), (''onExit'', Func 8 [])]"

definition eventsA :: "jsval \<Rightarrow> jsval \<Rightarrow> jsval" where
  "eventsA go stay =
     Obj [(''go'', go), (''stay'', stay), (''jump'', Obj [(''toState'', Str ''B'')])]"

definition stateA :: "jsval \<Rightarrow> jsval \<Rightarrow> jsval" where
  "stateA go stay = Obj [(''events'', eventsA go stay), (''actions'', actionsA)]"

definition stateB :: "jsval \<Rightarrow> jsval" where
  "stateB onEnter = Obj [(''events'', Obj [(''back'', Obj [(''toState'', Str ''A'')])]),
                         (''actions'', actionsB onEnter)]"

definition statesAB :: "jsval \<Rightarrow> jsval \<Rightarrow> jsval \<Rightarrow> jsval" where
  "statesAB go stay onEnterB = Obj [(''A'', stateA go stay), (''B'', stateB onEnterB)]"

definition twoStates :: "jsval \<Rightarrow> jsval \<Rightarrow> jsval \<Rightarrow> jsval" where
  "twoStates go stay onEnterB =
     Obj [(''startState'', Str ''A''), (''states'', statesAB go stay onEnterB)]"

text \<open>
  The example with callbacks that leave the machine as it is, and the example with one
  callback of another kind: the \<open>onBefore\<close> of \<open>go\<close>, the \<open>onBefore\<close> of \<open>stay\<close>, the
  \<open>onEnter\<close> of \<open>B\<close>.
\<close>

definition plain :: jsval where
  "plain = twoStates (eventGo (Func 1 [])) (eventStay (Func 3 [])) (Func 7 [])"

definition beforeGo :: "jsval \<Rightarrow> jsval" where
  "beforeGo f = twoStates (eventGo f) (eventStay (Func 3 [])) (Func 7 [])"

definition beforeStay :: "jsval \<Rightarrow> jsval" where
  "beforeStay f = twoStates (eventGo (Func 1 [])) (eventStay f) (Func 7 [])"

definition enterB :: "jsval \<Rightarrow> jsval" where
  "enterB f = twoStates (eventGo (Func 1 [])) (eventStay (Func 3 [])) f"

text \<open>
  Callbacks of another kind: an \<open>onBefore\<close> that sets the \<open>toState\<close> of its event
  node, one that removes the \<open>onAfter\<close> of its event node, one that sends the event
  \<open>jump\<close>, one that sends the event \<open>stay\<close>, and a function that throws. The event
  nodes of \<open>go\<close> and \<open>stay\<close> after the two assignments.
\<close>

definition redirecting :: jsval where
  "redirecting = Func 1 [Assign ''toState'' (Str ''Nowhere'')]"

definition silencing :: jsval where
  "silencing = Func 3 [Assign ''onAfter'' Undefined]"

definition jumping :: jsval where
  "jumping = Func 1 [Send (Str ''jump'')]"

definition repeating :: jsval where
  "repeating = Func 3 [Send (Str ''stay'')]"

definition throwing :: "nat \<Rightarrow> jsval" where
  "throwing i = Func i [Throw]"

definition redirected :: jsval where
  "redirected =
     Obj [(''toState'', Str ''Nowhere''), (''onBefore'', redirecting),
          (''onAfter'', Func 2 [])]"

definition silenced :: jsval where
  "silenced =
     Obj [(''toState'', Str ''A''), (''onBefore'', silencing), (''onAfter'', Undefined)]"

text \<open>
  The variables of a machine whose validation found no problem, for a configuration
  and a current state.
\<close>

definition validMachine :: "jsval \<Rightarrow> jsval \<Rightarrow> machine" where
  "validMachine c s = \<lparr>config = c, isInternalValid = True, current = s, initStatus = OK\<rparr>"

text \<open>
  Configurations in which a name is a member of \<open>Object.prototype\<close> and no declared
  state: the target of an event, and the start state.
\<close>

definition constructorTarget :: jsval where
  "constructorTarget =
     Obj [(''startState'', Str ''A''),
          (''states'', Obj [
             (''A'', Obj [(''events'',
                Obj [(''e'', Obj [(''toState'', Str ''constructor'')])])])])]"

definition toStringTarget :: jsval where
  "toStringTarget =
     Obj [(''startState'', Str ''Idle''),
          (''states'', Obj [
             (''Idle'', Obj [(''events'',
                Obj [(''start'', Obj [(''toState'', Str ''toString'')])])]),
             (''Busy'', Obj [(''events'',
                Obj [(''stop'', Obj [(''toState'', Str ''Idle'')])])])])]"

definition constructorStart :: jsval where
  "constructorStart =
     Obj [(''startState'', Str ''constructor''),
          (''states'', Obj [(''A'', Obj [(''events'', Obj [])])])]"

text \<open>No \<open>startState\<close>, and a state of the name \<open>null\<close>.\<close>

definition stateNamedNull :: jsval where
  "stateNamedNull = Obj [(''states'', Obj [(''null'', Obj [(''events'', Obj [])])])]"

text \<open>
  Configurations with an \<open>onEnter\<close> that is the number 5: in a state without events,
  and in a state with an event.
\<close>

definition terminalBadAction :: jsval where
  "terminalBadAction =
     Obj [(''startState'', Str ''A''),
          (''states'', Obj [
             (''A'', Obj [(''events'', Obj []),
                          (''actions'', Obj [(''onEnter'', Num 5)])])])]"

definition badAction :: jsval where
  "badAction =
     Obj [(''startState'', Str ''A''),
          (''states'', Obj [
             (''A'', Obj [(''events'', Obj [(''e'', Obj [(''toState'', Str ''A'')])]),
                          (''actions'', Obj [(''onEnter'', Num 5)])])])]"

subsection \<open>Predicates on the variables of \<open>init\<close>\<close>

text \<open>Some flag is set.\<close>

definition problem :: "init_vars \<Rightarrow> bool" where
  "problem v =
     (hasInvalidStartState v \<or> hasInvalidStateNodes v \<or> hasInvalidEventNode v
      \<or> hasInvalidToState v \<or> hasInvalidActionFunction v \<or> hasInvalidTransitionFunction v)"

text \<open>\<open>initStatus\<close> is \<open>OK\<close> exactly when no flag is set.\<close>

definition consistent :: "init_vars \<Rightarrow> bool" where
  "consistent v = ((initStatus v = OK) = (\<not> problem v))"


section \<open>Properties of the validation\<close>

subsection \<open>Sequencing and iteration\<close>

lemma bind_Inr [simp]: "bind (Inr v) f = f v"
  by (simp add: bind_def)

lemma bind_Inl [simp]: "bind (Inl e) f = Inl e"
  by (simp add: bind_def)

lemma bind_eq_Inr: "(bind m f = Inr r) = (\<exists>v. m = Inr v \<and> f v = Inr r)"
  by (cases m) simp_all

lemma if_Inr: "(if c then Inr x else Inr y) = Inr (if c then x else y)"
  by simp

lemma iterate_preserves:
  assumes step: "\<And>s x s'. P s \<Longrightarrow> f s x = Inr s' \<Longrightarrow> P s'"
  shows "P s \<Longrightarrow> iterate f xs s = Inr s' \<Longrightarrow> P s'"
proof (induction xs arbitrary: s)
  case Nil
  then show ?case by simp
next
  case (Cons x xs)
  from Cons.prems(2) obtain t where t: "f s x = Inr t" and rest: "iterate f xs t = Inr s'"
    by (auto simp: bind_eq_Inr)
  from step [OF Cons.prems(1) t] rest show ?case
    by (rule Cons.IH)
qed


subsection \<open>Every step of the validation\<close>

lemma inspect_event_consistent:
  assumes "consistent v" and "inspect_event states v event = Inr v'"
  shows "consistent v'"
proof (cases "truthy event")
  case False
  with assms show ?thesis
    by (auto simp: inspect_event_def consistent_def problem_def)
next
  case True
  with assms show ?thesis
    by (clarsimp simp: inspect_event_def bind_eq_Inr Let_def if_Inr consistent_def problem_def)
qed

lemma inspect_event_config:
  assumes "config v = c" and "inspect_event states v event = Inr v'"
  shows "config v' = c"
proof (cases "truthy event")
  case False
  with assms show ?thesis
    by (auto simp: inspect_event_def)
next
  case True
  with assms show ?thesis
    by (clarsimp simp: inspect_event_def bind_eq_Inr Let_def if_Inr)
qed

lemma inspect_actions_consistent:
  "consistent v \<Longrightarrow> inspect_actions v actions = Inr v' \<Longrightarrow> consistent v'"
  by (clarsimp simp: inspect_actions_def bind_eq_Inr Let_def consistent_def problem_def)

lemma inspect_actions_config:
  "config v = c \<Longrightarrow> inspect_actions v actions = Inr v' \<Longrightarrow> config v' = c"
  by (clarsimp simp: inspect_actions_def bind_eq_Inr Let_def)

lemma inspect_state_cases:
  assumes "inspect_state states v state = Inr v'"
  obtains events where "get state ''events'' = Inr events" and "keys events = []" and "v' = v"
  | events actions w where "get state ''events'' = Inr events" and "keys events \<noteq> []"
      and "get state ''actions'' = Inr actions"
      and "(if truthy actions then inspect_actions v actions else Inr v) = Inr w"
      and "iterate (inspect_event states) (each_values events) w = Inr v'"
proof -
  from assms obtain events where ev: "get state ''events'' = Inr events"
    and body: "(if length (keys events) < 1 then Inr v
            else bind (get state ''actions'') (\<lambda>actions.
                 bind (if truthy actions then inspect_actions v actions else Inr v) (\<lambda>w.
                 each (inspect_event states) events w))) = Inr v'"
    by (auto simp: inspect_state_def bind_eq_Inr Let_def)
  show ?thesis
  proof (cases "keys events = []")
    case True
    with body ev that(1) show ?thesis by simp
  next
    case False
    with body obtain actions w where "get state ''actions'' = Inr actions"
      and "(if truthy actions then inspect_actions v actions else Inr v) = Inr w"
      and "iterate (inspect_event states) (each_values events) w = Inr v'"
      by (auto simp: bind_eq_Inr each_def)
    with ev False that(2) show ?thesis by blast
  qed
qed

lemma inspect_state_preserves:
  assumes event: "\<And>w e w'. P w \<Longrightarrow> inspect_event states w e = Inr w' \<Longrightarrow> P w'"
    and actions: "\<And>w a w'. P w \<Longrightarrow> inspect_actions w a = Inr w' \<Longrightarrow> P w'"
    and start: "P v" and run: "inspect_state states v state = Inr v'"
  shows "P v'"
  using run
proof (cases rule: inspect_state_cases)
  case (1 events)
  with start show ?thesis by simp
next
  case (2 events actions w)
  from 2(4) start have "P w"
    by (auto split: if_splits intro: actions)
  show ?thesis
  proof (rule iterate_preserves [where P = P and f = "inspect_event states" and s = w])
    show "P w" by fact
    show "iterate (inspect_event states) (each_values events) w = Inr v'" by fact
  qed (fact event)
qed

lemma inspect_state_consistent:
  "consistent v \<Longrightarrow> inspect_state states v state = Inr v' \<Longrightarrow> consistent v'"
proof (rule inspect_state_preserves [where P = consistent and states = states and v = v])
  fix w :: init_vars and x w' assume "consistent w"
  then show "inspect_event states w x = Inr w' \<Longrightarrow> consistent w'"
    by (rule inspect_event_consistent)
  from \<open>consistent w\<close> show "inspect_actions w x = Inr w' \<Longrightarrow> consistent w'"
    by (rule inspect_actions_consistent)
qed

lemma inspect_state_config:
  "config v = c \<Longrightarrow> inspect_state states v state = Inr v' \<Longrightarrow> config v' = c"
proof (rule inspect_state_preserves [where P = "\<lambda>w. config w = c" and states = states
         and v = v])
  fix w :: init_vars and x w' assume "config w = c"
  then show "inspect_event states w x = Inr w' \<Longrightarrow> config w' = c"
    by (rule inspect_event_config)
  from \<open>config w = c\<close> show "inspect_actions w x = Inr w' \<Longrightarrow> config w' = c"
    by (rule inspect_actions_config)
qed

subsection \<open>The whole validation\<close>

lemma conclude_fields [simp]:
  "initStatus (conclude v) = initStatus v" "config (conclude v) = config v"
  "current (conclude v) = current v"
  "isInternalValid (conclude v) = (\<not> problem v)"
  by (auto simp: conclude_def problem_def)

lemma init_cases:
  assumes "init v = Inr v'"
  obtains states where "get (config v) ''states'' = Inr states" and "\<not> truthy states"
      and "v' = conclude (v\<lparr>initStatus := ERROR_NO_VALID_STATES, hasInvalidStateNodes := True\<rparr>)"
  | states v2 v3 where "get (config v) ''states'' = Inr states" and "truthy states"
      and "consistent v2 \<or> \<not> consistent v" and "config v2 = config v"
      and "iterate (inspect_state states) (each_values states) v2 = Inr v3"
      and "v' = conclude v3"
proof -
  from assms obtain states where st: "get (config v) ''states'' = Inr states"
    and body: "(if truthy states then
       bind (get (config v) ''startState'') (\<lambda>s.
       bind (bind (to_key (if isString s then s else Null)) (get states)) (\<lambda>startNode.
       bind (each (inspect_state states) states
              (if length (keys states) < 1
               then (if truthy startNode then v\<lparr>current := if isString s then s else Null\<rparr>
                     else v\<lparr>hasInvalidStartState := True,
                            initStatus := ERROR_INVALID_START_STATE\<rparr>)
                    \<lparr>initStatus := ERROR_NO_VALID_STATES, hasInvalidStateNodes := True\<rparr>
               else (if truthy startNode then v\<lparr>current := if isString s then s else Null\<rparr>
                     else v\<lparr>hasInvalidStartState := True,
                            initStatus := ERROR_INVALID_START_STATE\<rparr>)))
         (\<lambda>v3. Inr (conclude v3))))
     else
       Inr (conclude (v\<lparr>initStatus := ERROR_NO_VALID_STATES, hasInvalidStateNodes := True\<rparr>)))
      = Inr v'"
    unfolding init_def bind_eq_Inr Let_def by blast
  show ?thesis
  proof (cases "truthy states")
    case False
    with body st that(1) show ?thesis by simp
  next
    case True
    with body obtain s startNode v3 where
      run: "iterate (inspect_state states) (each_values states)
              (if length (keys states) < 1
               then (if truthy startNode then v\<lparr>current := if isString s then s else Null\<rparr>
                     else v\<lparr>hasInvalidStartState := True,
                            initStatus := ERROR_INVALID_START_STATE\<rparr>)
                    \<lparr>initStatus := ERROR_NO_VALID_STATES, hasInvalidStateNodes := True\<rparr>
               else (if truthy startNode then v\<lparr>current := if isString s then s else Null\<rparr>
                     else v\<lparr>hasInvalidStartState := True,
                            initStatus := ERROR_INVALID_START_STATE\<rparr>)) = Inr v3"
      and v': "v' = conclude v3"
      by (auto simp: bind_eq_Inr each_def)
    show ?thesis
    proof (rule that(2) [OF st True _ _ run v'])
      show "consistent
              (if length (keys states) < 1
               then (if truthy startNode then v\<lparr>current := if isString s then s else Null\<rparr>
                     else v\<lparr>hasInvalidStartState := True,
                            initStatus := ERROR_INVALID_START_STATE\<rparr>)
                    \<lparr>initStatus := ERROR_NO_VALID_STATES, hasInvalidStateNodes := True\<rparr>
               else (if truthy startNode then v\<lparr>current := if isString s then s else Null\<rparr>
                     else v\<lparr>hasInvalidStartState := True,
                            initStatus := ERROR_INVALID_START_STATE\<rparr>)) \<or> \<not> consistent v"
        by (auto simp: consistent_def problem_def)
    qed simp
  qed
qed

lemma init_valid_iff_status:
  assumes "consistent v" and "init v = Inr v'"
  shows "isInternalValid v' = (initStatus v' = OK)"
  using assms(2)
proof (cases rule: init_cases)
  case (1 states)
  then show ?thesis by (simp add: problem_def)
next
  case (2 states v2 v3)
  have "consistent v3"
  proof (rule iterate_preserves [where P = consistent and f = "inspect_state states"
           and s = v2])
    from 2(3) assms(1) show "consistent v2" by simp
    show "iterate (inspect_state states) (each_values states) v2 = Inr v3" by fact
  qed (fact inspect_state_consistent)
  with 2(6) show ?thesis by (simp add: consistent_def)
qed

lemma init_config:
  assumes "init v = Inr v'"
  shows "config v' = config v"
  using assms
proof (cases rule: init_cases)
  case (1 states)
  then show ?thesis by simp
next
  case (2 states v2 v3)
  have "config v3 = config v"
  proof (rule iterate_preserves [where P = "\<lambda>w. config w = config v"
           and f = "inspect_state states" and s = v2])
    show "config v2 = config v" by fact
    show "iterate (inspect_state states) (each_values states) v2 = Inr v3" by fact
  qed (fact inspect_state_config)
  with 2(6) show ?thesis by simp
qed

subsection \<open>The machine that \<open>newFSM\<close> returns\<close>

lemma newFSM_cases:
  assumes "newFSM userConfig = Inr m"
  obtains v where
    "init (initial_vars (cloneDeep (if truthy userConfig then userConfig else Obj []))) = Inr v"
    and "config m = config v" and "isInternalValid m = isInternalValid v"
    and "current m = current v" and "initStatus m = initStatus v"
  using assms
  by (auto simp: newFSM_def bind_eq_Inr machine.defs)

lemma consistent_initial_vars: "consistent (initial_vars c)"
  by (simp add: consistent_def problem_def initial_vars_def)

lemma newFSM_valid_iff_status:
  assumes "newFSM userConfig = Inr m"
  shows "isInternalValid m = (initStatus m = OK)"
  using assms
proof (cases rule: newFSM_cases)
  case (1 v)
  from init_valid_iff_status [OF consistent_initial_vars 1(1)] 1(3,5)
  show ?thesis by simp
qed

lemma newFSM_config:
  assumes "newFSM userConfig = Inr m"
  shows "config m = cloneDeep (if truthy userConfig then userConfig else Obj [])"
  using assms
proof (cases rule: newFSM_cases)
  case (1 v)
  from init_config [OF 1(1)] 1(2) show ?thesis
    by (simp add: initial_vars_def)
qed
section \<open>Properties of the public functions\<close>

subsection \<open>Sequencing\<close>

lemma bindE:
  assumes "bind m f = Inr r"
  obtains v where "m = Inr v" and "f v = Inr r"
  using assms by (auto simp: bind_eq_Inr)

lemma attempt_Inr [simp]: "attempt (Inr x) m f = f x"
  by (simp add: attempt_def)

lemma attempt_Inl [simp]: "attempt (Inl e) m f = (Inl e, m, [])"
  by (simp add: attempt_def)

lemma after_reply [simp]: "after calls (r, m, calls') = (r, m, calls @ calls')"
  by (simp add: after_def)

lemma andThen_Inr [simp]: "andThen (Inr x, m, calls) f = after calls (f x m)"
  by (simp add: andThen_def)

lemma andThen_Inl [simp]: "andThen (Inl e, m, calls) f = (Inl e, m, calls)"
  by (simp add: andThen_def)

lemma attemptE:
  assumes "attempt r m f = res"
  obtains e where "r = Inl e" and "res = (Inl e, m, [])"
  | x where "r = Inr x" and "f x = res"
  using assms by (cases r) auto

lemma afterE:
  assumes "after c1 r = (x, m', calls)"
  obtains c2 where "r = (x, m', c2)" and "calls = c1 @ c2"
  using assms by (cases r) auto

lemma andThenE:
  assumes "andThen r f = (x, m', calls)"
  obtains e where "r = (Inl e, m', calls)" and "x = Inl e"
  | y m1 c1 c2 where "r = (Inr y, m1, c1)" and "f y m1 = (x, m', c2)" and "calls = c1 @ c2"
proof (cases r)
  case (fields a m1 c1)
  show ?thesis
  proof (cases a)
    case (Inl e)
    with fields assms that(1) show ?thesis by simp
  next
    case (Inr y)
    with fields assms that(2) show ?thesis by (auto elim: afterE)
  qed
qed

subsection \<open>What a call leaves unchanged\<close>

lemma frame_refl [simp]: "frame m m []"
  by (simp add: frame_def)

lemma frame_current [simp]: "frame m (m\<lparr>current := s\<rparr>) []"
  by (simp add: frame_def)

lemma frame_trans: "frame m m1 c1 \<Longrightarrow> frame m1 m2 c2 \<Longrightarrow> frame m m2 (c1 @ c2)"
  by (simp add: frame_def)

lemma run_frame:
  assumes "framed api" and "run api this body m = (r, m', calls)"
  shows "isInternalValid m' = isInternalValid m \<and> initStatus m' = initStatus m
         \<and> (list_all (\<lambda>e. \<not> is_assignment e) body
              \<and> list_all (\<lambda>c. assignment_free (fst c)) calls \<longrightarrow> config m' = config m)"
  using assms(2)
proof (induction body arbitrary: m r m' calls)
  case Nil
  then show ?case by simp
next
  case (Cons step rest)
  show ?case
  proof (cases step)
    case Throw
    with Cons.prems show ?thesis by simp
  next
    case (Assign k v)
    with Cons.prems Cons.IH [of "m\<lparr>config := c\<rparr>" r m' calls for c] show ?thesis
      by (auto split: option.splits sum.splits)
  next
    case (Send name)
    obtain x m1 c1 where api: "api m name = (x, m1, c1)"
      by (cases "api m name")
    with assms(1) have m1: "frame m m1 c1"
      by (auto simp: framed_def)
    show ?thesis
    proof (cases x)
      case (Inl e)
      with Cons.prems Send api m1 show ?thesis
        by (auto simp: frame_def)
    next
      case (Inr code)
      with Cons.prems Send api obtain c2 where "run api this rest m1 = (r, m', c2)"
        and "calls = c1 @ c2"
        by (auto elim: afterE)
      with Cons.IH [of m1 r m' c2] m1 Send show ?thesis
        by (auto simp: frame_def)
    qed
  qed
qed

lemma invoke_frame:
  assumes "framed api" and "invoke api this f m = (r, m', calls)"
  shows "frame m m' calls"
proof (cases "isFunction f")
  case False
  with assms(2) show ?thesis by (simp add: invoke_def)
next
  case True
  show ?thesis
  proof (cases f)
    case (Func i body)
    with assms(2) obtain c2 where run: "run api this body m = (r, m', c2)"
      and calls: "calls = (f, current m) # c2"
      by (auto simp: invoke_def elim: afterE)
    from run_frame [OF assms(1) run] calls Func show ?thesis
      by (simp add: frame_def)
  qed (use True assms(2) in \<open>auto simp: invoke_def frame_def\<close>)
qed

lemma transition_frame:
  assumes "framed api"
    and "transition api m this states currentNode eventNode toState = (r, m', calls)"
  shows "frame m m' calls"
  using assms(2) unfolding transition_def Let_def
  by (elim attemptE andThenE) (auto dest!: invoke_frame [OF assms(1)] simp: frame_def)


lemma handleEvent_cases:
  assumes "handleEvent api m name = (r, m', calls)"
  obtains "m' = m" and "calls = []" and "r \<noteq> Inr OK"
  | a e states currentNode eventNode toState
    where "isInternalValid m" and "canHandleEvent m name = Inr True"
      and "get (config m) ''states'' = Inr states"
      and "to_key (current m) = Inr a" and "get states a = Inr currentNode"
      and "to_key name = Inr e"
      and "bind (get currentNode ''events'') (\<lambda>events. get events e) = Inr eventNode"
      and "get eventNode ''toState'' = Inr toState"
      and "has states toState = Inr True"
      and "transition api m (a, e) states currentNode eventNode toState = (r, m', calls)"
proof (cases "isInternalValid m")
  case False
  with assms that(1) show ?thesis by (auto simp: handleEvent_def)
next
  case True
  with assms have "attempt (canHandleEvent m name) m (\<lambda>can.
        if can then
          attempt (get (config m) ''states'') m (\<lambda>states.
          attempt (to_key (current m)) m (\<lambda>a.
          attempt (get states a) m (\<lambda>currentNode.
          attempt (get currentNode ''events'') m (\<lambda>events.
          attempt (to_key name) m (\<lambda>e.
          attempt (get events e) m (\<lambda>eventNode.
          attempt (get eventNode ''toState'') m (\<lambda>toState.
          attempt (has states toState) m (\<lambda>known.
          if known then transition api m (a, e) states currentNode eventNode toState
          else (Inr ERROR_INVALID_TARGET_STATE, m, [])))))))))
        else (Inr ERROR_ILLEGAL_EVENT, m, [])) = (r, m', calls)"
    by (simp add: handleEvent_def)
  then show ?thesis
  proof (elim attemptE)
    fix can
    assume can: "canHandleEvent m name = Inr can"
      and *: "(if can then
          attempt (get (config m) ''states'') m (\<lambda>states.
          attempt (to_key (current m)) m (\<lambda>a.
          attempt (get states a) m (\<lambda>currentNode.
          attempt (get currentNode ''events'') m (\<lambda>events.
          attempt (to_key name) m (\<lambda>e.
          attempt (get events e) m (\<lambda>eventNode.
          attempt (get eventNode ''toState'') m (\<lambda>toState.
          attempt (has states toState) m (\<lambda>known.
          if known then transition api m (a, e) states currentNode eventNode toState
          else (Inr ERROR_INVALID_TARGET_STATE, m, [])))))))))
        else (Inr ERROR_ILLEGAL_EVENT, m, [])) = (r, m', calls)"
    show ?thesis
    proof (cases can)
      case False
      with * that(1) show ?thesis by auto
    next
      case yes: True
      with * have "attempt (get (config m) ''states'') m (\<lambda>states.
          attempt (to_key (current m)) m (\<lambda>a.
          attempt (get states a) m (\<lambda>currentNode.
          attempt (get currentNode ''events'') m (\<lambda>events.
          attempt (to_key name) m (\<lambda>e.
          attempt (get events e) m (\<lambda>eventNode.
          attempt (get eventNode ''toState'') m (\<lambda>toState.
          attempt (has states toState) m (\<lambda>known.
          if known then transition api m (a, e) states currentNode eventNode toState
          else (Inr ERROR_INVALID_TARGET_STATE, m, []))))))))) = (r, m', calls)"
        by simp
      then show ?thesis
      proof (elim attemptE)
        fix states a currentNode events e eventNode toState known
        assume "get (config m) ''states'' = Inr states" "to_key (current m) = Inr a"
          "get states a = Inr currentNode" "get currentNode ''events'' = Inr events"
          "to_key name = Inr e" "get events e = Inr eventNode"
          "get eventNode ''toState'' = Inr toState" "has states toState = Inr known"
          and **: "(if known then transition api m (a, e) states currentNode eventNode toState
            else (Inr ERROR_INVALID_TARGET_STATE, m, [])) = (r, m', calls)"
        with True can yes that show ?thesis
          by (cases known) auto
      qed (use that(1) in auto)
    qed
  qed (use that(1) in auto)
qed

lemma handleEvent_frame:
  assumes "framed api" and "handleEvent api m name = (r, m', calls)"
  shows "frame m m' calls"
  using assms(2)
  by (cases rule: handleEvent_cases) (auto dest: transition_frame [OF assms(1)])


lemma framed_nested: "framed (nested d)"
proof (induction d)
  case 0
  show ?case by (simp add: framed_def)
next
  case (Suc d)
  then show ?case
    by (subst framed_def) (auto dest: handleEvent_frame)
qed

lemma perform_cases:
  assumes "perform api m operation = (result, m', calls)"
  obtains "m' = m" and "calls = []" and "\<And>name. operation \<noteq> HandleEvent name"
  | name e where "operation = HandleEvent name" and "result = Inl e"
      and "handleEvent api m name = (Inl e, m', calls)"
  | name code where "operation = HandleEvent name" and "result = Inr (Code code)"
      and "handleEvent api m name = (Inr code, m', calls)"
proof (cases operation)
  case (HandleEvent name)
  with assms that(2,3) show ?thesis
    by (auto elim!: andThenE)
next
  case (CanHandleEvent name)
  with assms that(1) show ?thesis
    by (auto elim!: attemptE)
qed (use assms that(1) in auto)

lemma perform_frame:
  assumes "perform (nested d) m operation = (result, m', calls)"
  shows "frame m m' calls"
  using assms
  by (cases rule: perform_cases) (auto dest: handleEvent_frame [OF framed_nested])

lemma machine_of_valid_iff_status:
  "machine_of userConfig m \<Longrightarrow> isInternalValid m = (initStatus m = OK)"
proof (induction rule: machine_of.induct)
  case (built userConfig m)
  then show ?case by (rule newFSM_valid_iff_status)
next
  case (called userConfig m d operation result m' calls)
  from perform_frame [OF called.hyps(2)] called.IH show ?case
    by (simp add: frame_def)
qed


subsection \<open>Own properties\<close>









subsection \<open>A transition\<close>




lemma calls_made:
  "(if isFunction f1 then [(f1, s1)] else []) @ (if isFunction f2 then [(f2, s2)] else [])
   @ (if isFunction f3 then [(f3, s3)] else []) @ (if isFunction f4 then [(f4, s4)] else [])
   = filter (\<lambda>c. isFunction (fst c)) [(f1, s1), (f2, s2), (f3, s3), (f4, s4)]"
  by simp




subsection \<open>Names that are no registered event\<close>

lemma has_plain_name:
  assumes "CHR ''.'' \<notin> set e" and "CHR ''['' \<notin> set e"
  shows "has (Obj ps) (Str e) = Inr (e \<in> set (map fst ps))"
  using assms
  by (auto simp: has_def split: option.splits)

lemma unregistered_plain_name_rejected:
  assumes "isInternalValid m"
    and "get (config m) ''states'' = Inr states"
    and "to_key (current m) = Inr a" and "get states a = Inr currentNode"
    and "get currentNode ''events'' = Inr (Obj ps)"
    and "CHR ''.'' \<notin> set e" and "CHR ''['' \<notin> set e" and "e \<notin> set (map fst ps)"
  shows "canHandleEvent m (Str e) = Inr False
         \<and> handleEvent api m (Str e) = (Inr ERROR_ILLEGAL_EVENT, m, [])"
proof -
  from assms(6-8) have "has (Obj ps) (Str e) = Inr False"
    by (simp add: has_plain_name)
  with assms(1-5) have "canHandleEvent m (Str e) = Inr False"
    by (simp add: canHandleEvent_def)
  with assms(1) show ?thesis
    by (simp add: handleEvent_def)
qed
section \<open>Evaluation of the examples\<close>

text \<open>
  The simplifier evaluates a call on a concrete configuration. It does not look into
  the continuation of a step before the step has given its result.
\<close>

lemma bind_weak_cong: "m = m' \<Longrightarrow> bind m f = bind m' f"
  by simp

lemma attempt_weak_cong: "r = r' \<Longrightarrow> attempt r m f = attempt r' m f"
  by simp

lemma andThen_weak_cong: "r = r' \<Longrightarrow> andThen r f = andThen r' f"
  by simp

lemma after_weak_cong: "r = r' \<Longrightarrow> after calls r = after calls r'"
  by simp

lemmas stepwise = bind_weak_cong attempt_weak_cong andThen_weak_cong after_weak_cong

lemmas configs = plain_def beforeGo_def beforeStay_def enterB_def twoStates_def statesAB_def
  stateA_def stateB_def eventsA_def actionsA_def actionsB_def eventGo_def eventStay_def
  redirecting_def silencing_def jumping_def repeating_def throwing_def redirected_def
  silenced_def

lemmas evaluation = newFSM_def init_def initial_vars_def conclude_def each_def
  inspect_state_def inspect_actions_def inspect_event_def handleEvent_def canHandleEvent_def
  transition_def invoke_def eventNodeAt_def has_def in_object_def stringToPath_def
  host_member_def index_of_def isArrayLike_def validMachine_def isValid_def status_def
  currentState_def object_prototype_names_def config_vocabulary_def Let_def machine.defs









lemma plain_stay:
  "handleEvent api (validMachine plain (Str ''A'')) (Str ''stay'')
   = (Inr OK, validMachine plain (Str ''A''),
      [(Func 3 [], Str ''A''), (Func 6 [], Str ''A''),
       (Func 5 [], Str ''A''), (Func 4 [], Str ''A'')])"
  by (simp add: evaluation configs cong: stepwise)













section \<open>The claims\<close>

text \<open>
  Claim C1 (in a valid machine, \<open>handleEvent\<close> of an event registered in the current
  state with target \<open>T\<close> returns \<open>OK\<close> and makes \<open>T\<close> the current state). The
  configuration \<open>{startState: 'A', states: {A: {events: {e: {toState: 'constructor'}}}}}\<close>
  passes the validation: line 127 tests \<open>states[event.toState]\<close> for truthiness, and
  \<open>states['constructor']\<close> is the function that every object inherits. The machine is
  valid and \<open>e\<close> is registered in the current state, yet \<open>handleEvent('e')\<close> returns
  \<open>ERROR_INVALID_TARGET_STATE\<close> and the current state stays \<open>A\<close>, because line 168
  tests with \<open>_.has\<close> for an own property. When the target is an own property of
  \<open>states\<close>, the reads succeed and the callbacks are quiet, the call returns \<open>OK\<close>
  (\<open>handleEvent_quiet\<close>).
\<close>

theorem registered_event_rejected:
  "newFSM constructorTarget = Inr (validMachine constructorTarget (Str ''A''))
   \<and> isValid (validMachine constructorTarget (Str ''A''))
   \<and> canHandleEvent (validMachine constructorTarget (Str ''A'')) (Str ''e'') = Inr True
   \<and> handleEvent api (validMachine constructorTarget (Str ''A'')) (Str ''e'')
     = (Inr ERROR_INVALID_TARGET_STATE, validMachine constructorTarget (Str ''A''), [])"
  by (simp add: evaluation constructorTarget_def cong: stepwise)

text \<open>
  Claim C2 (a machine whose validation failed answers every \<open>handleEvent\<close> with
  \<open>ERROR_IMPROPERLY_INITIALIZED\<close> and keeps its current state, and answers every
  \<open>canHandleEvent\<close> with false). For every machine of a configuration, however many
  calls it has served and whatever their callbacks have done, and every value given as
  the event name: when \<open>isValid()\<close> is false, \<open>handleEvent\<close> returns
  \<open>ERROR_IMPROPERLY_INITIALIZED\<close>, leaves all variables of the machine as they are and
  calls no callback, and \<open>canHandleEvent\<close> returns false.
\<close>

theorem invalid_machine_is_inoperable:
  assumes "machine_of userConfig m" and "\<not> isValid m"
  shows "handleEvent api m name = (Inr ERROR_IMPROPERLY_INITIALIZED, m, [])
         \<and> canHandleEvent m name = Inr False"
proof -
  from assms have "\<not> isInternalValid m"
    by (simp add: machine_of_valid_iff_status isValid_def)
  then show ?thesis
    by (simp add: handleEvent_def canHandleEvent_def)
qed

text \<open>The machine of an absent configuration is such a machine.\<close>

theorem invalid_machine_is_inoperable_witness:
  "machine_of Undefined
     \<lparr>config = Obj [], isInternalValid = False, current = Null,
      initStatus = ERROR_NO_VALID_STATES\<rparr>
   \<and> \<not> isValid \<lparr>config = Obj [], isInternalValid = False, current = Null,
                  initStatus = ERROR_NO_VALID_STATES\<rparr>
   \<and> handleEvent (nested 0)
        \<lparr>config = Obj [], isInternalValid = False, current = Null,
         initStatus = ERROR_NO_VALID_STATES\<rparr> (Str ''turnOn'')
     = (Inr ERROR_IMPROPERLY_INITIALIZED,
        \<lparr>config = Obj [], isInternalValid = False, current = Null,
         initStatus = ERROR_NO_VALID_STATES\<rparr>, [])
   \<and> canHandleEvent \<lparr>config = Obj [], isInternalValid = False, current = Null,
                      initStatus = ERROR_NO_VALID_STATES\<rparr> (Str ''turnOn'') = Inr False"
proof -
  have built: "machine_of Undefined
     \<lparr>config = Obj [], isInternalValid = False, current = Null,
      initStatus = ERROR_NO_VALID_STATES\<rparr>"
    by (rule machine_of.built) (simp add: evaluation cong: stepwise)
  have invalid: "\<not> isValid \<lparr>config = Obj [], isInternalValid = False, current = Null,
                  initStatus = ERROR_NO_VALID_STATES\<rparr>"
    by (simp add: isValid_def)
  from invalid_machine_is_inoperable [OF built invalid, of "nested 0" "Str ''turnOn''"]
    built invalid
  show ?thesis by simp
qed

text \<open>
  Claim C3 (in a valid machine, an event name that is not in the events mapping of the
  current state makes \<open>canHandleEvent\<close> return false and \<open>handleEvent\<close> return
  \<open>ERROR_ILLEGAL_EVENT\<close>). In the light switch, the only key of the events of \<open>Off\<close> is
  \<open>turnOn\<close>. For the name \<open>turnOn.toState\<close>, \<open>_.has\<close> follows the path from \<open>turnOn\<close>
  to its property \<open>toState\<close>, so that \<open>canHandleEvent\<close> returns true; \<open>handleEvent\<close>
  then reads \<open>events['turnOn.toState']\<close>, which is \<open>undefined\<close>, and the read of its
  \<open>toState\<close> at line 168 throws. For a name without \<open>.\<close> and \<open>[\<close> the claim holds
  (\<open>unregistered_plain_name_rejected\<close>), and a call that returns another code than
  \<open>OK\<close> changes nothing (\<open>handleEvent_code\<close>).
\<close>

theorem path_name_accepted:
  "newFSM lightSwitch = Inr (validMachine lightSwitch (Str ''Off''))
   \<and> isValid (validMachine lightSwitch (Str ''Off''))
   \<and> get (Obj [(''events'', Obj [(''turnOn'', Obj [(''toState'', Str ''On'')])])]) ''events''
     = Inr (Obj [(''turnOn'', Obj [(''toState'', Str ''On'')])])
   \<and> keys (Obj [(''turnOn'', Obj [(''toState'', Str ''On'')])]) = [''turnOn'']
   \<and> canHandleEvent (validMachine lightSwitch (Str ''Off'')) (Str ''turnOn.toState'') = Inr True
   \<and> handleEvent api (validMachine lightSwitch (Str ''Off'')) (Str ''turnOn.toState'')
     = (Inl TypeError, validMachine lightSwitch (Str ''Off''), [])"
  by (simp add: evaluation lightSwitch_def cong: stepwise)




text \<open>
  Claim C5 (every configuration value gives a machine; construction never fails
  fatally). For the configuration \<open>{startState: 'A', states: {A: null}}\<close>, in which
  a state is declared as \<open>null\<close>, the function given to \<open>_.each(states, ...)\<close> reads
  \<open>state.events\<close> at line 87 and the read throws: \<open>newFSM\<close> returns no machine. An
  event declared as \<open>null\<close> is tested for at line 110 and reported as
  \<open>ERROR_INVALID_EVENT_NODE\<close>; a state is not tested.
\<close>

theorem null_state_throws:
  "newFSM (Obj [(''startState'', Str ''A''), (''states'', Obj [(''A'', Null)])]) = Inl TypeError"
  by code_simp

text \<open>
  Claim C6 (for each declared state, also one whose events mapping is empty, an
  \<open>onEnter\<close> or \<open>onExit\<close> that is present and not callable sets \<open>status()\<close> to
  \<open>ERROR_INVALID_ACTION_FUNCTION\<close> and makes \<open>isValid()\<close> false). The actions of a state
  are inspected in the branch of line 93 only, which a state without events does not
  reach: line 89 gives a warning for it and nothing else. With \<open>onEnter: 5\<close> in the
  state \<open>A\<close> without events the machine is valid and \<open>status()\<close> is \<open>OK\<close>. With the
  same \<open>onEnter: 5\<close> in the state \<open>A\<close> with one event, \<open>status()\<close> is
  \<open>ERROR_INVALID_ACTION_FUNCTION\<close> and the machine is not valid.
\<close>

theorem action_of_state_without_events_not_inspected:
  "newFSM terminalBadAction = Inr (validMachine terminalBadAction (Str ''A''))
   \<and> status (validMachine terminalBadAction (Str ''A'')) = OK
   \<and> isValid (validMachine terminalBadAction (Str ''A''))
   \<and> newFSM badAction
     = Inr \<lparr>config = badAction, isInternalValid = False, current = Str ''A'',
             initStatus = ERROR_INVALID_ACTION_FUNCTION\<rparr>"
  by code_simp

text \<open>
  Claim C7 (\<open>currentState()\<close> is \<open>null\<close>, and then the validation failed, or a key of
  \<open>states\<close>). Line 67 accepts a start state by the truthiness of
  \<open>states[startState]\<close>. With \<open>startState: 'constructor'\<close> and the single state \<open>A\<close>
  the machine is valid and its current state is \<open>constructor\<close>, which is no key of
  \<open>states\<close>. With no \<open>startState\<close> and a state of the name \<open>null\<close>, line 66 makes the
  start state \<open>null\<close>, \<open>states[null]\<close> is the state \<open>null\<close>, and the machine is valid
  with \<open>currentState()\<close> \<open>null\<close>.
\<close>

theorem current_state_not_declared:
  "newFSM constructorStart = Inr (validMachine constructorStart (Str ''constructor''))
   \<and> isValid (validMachine constructorStart (Str ''constructor''))
   \<and> currentState (validMachine constructorStart (Str ''constructor'')) = Str ''constructor''
   \<and> keys (Obj [(''A'', Obj [(''events'', Obj [])])]) = [''A'']
   \<and> newFSM stateNamedNull = Inr (validMachine stateNamedNull Null)
   \<and> isValid (validMachine stateNamedNull Null)
   \<and> currentState (validMachine stateNamedNull Null) = Null"
  by code_simp







text \<open>
  Claim C10 (a valid machine never returns \<open>ERROR_INVALID_TARGET_STATE\<close> from
  \<open>handleEvent\<close>). The validation at line 127 and the check at line 168 are different
  tests: the first holds for every name for which \<open>states[name]\<close> is truthy, also an
  inherited one, the second for own properties. With the target \<open>toString\<close> the
  configuration is valid and \<open>handleEvent('start')\<close> returns
  \<open>ERROR_INVALID_TARGET_STATE\<close>.
\<close>

theorem target_check_reached:
  "newFSM toStringTarget = Inr (validMachine toStringTarget (Str ''Idle''))
   \<and> isValid (validMachine toStringTarget (Str ''Idle''))
   \<and> handleEvent api (validMachine toStringTarget (Str ''Idle'')) (Str ''start'')
     = (Inr ERROR_INVALID_TARGET_STATE, validMachine toStringTarget (Str ''Idle''), [])"
  by (simp add: evaluation toStringTarget_def cong: stepwise)

end
